theory Spec2Isabelle
  imports Main
begin

text \<open>
  A shallow embedding of the routing core of ultimate-express: the pattern compiler of
  \<^verbatim>\<open>utils.js\<close> (\<^verbatim>\<open>patternToRegex\<close>, \<^verbatim>\<open>needsConversionToRegex\<close>) and the
  \<^verbatim>\<open>Router\<close> class of \<^verbatim>\<open>router.js\<close> (registration, the optimizer, the generic walk
  \<^verbatim>\<open>_routeRequest\<close>, the native handler of a flattened chain, param hooks and error
  handling).
\<close>

section \<open>JavaScript strings\<close>

text \<open>
  Strings are character lists. Only the string methods the router calls are modelled;
  \<^verbatim>\<open>includes\<close>, \<^verbatim>\<open>endsWith\<close> and \<^verbatim>\<open>replaceAll\<close> are always called with a
  one-character needle there, so the needle is a character.
\<close>

definition isWordChar :: "char \<Rightarrow> bool" where
  "isWordChar c = (let n = (of_char c :: nat) in
     (48 \<le> n \<and> n \<le> 57) \<or> (65 \<le> n \<and> n \<le> 90) \<or> (97 \<le> n \<and> n \<le> 122) \<or> n = 95)"

definition isDigitChar :: "char \<Rightarrow> bool" where
  "isDigitChar c = (let n = (of_char c :: nat) in 48 \<le> n \<and> n \<le> 57)"

definition isLineTerminator :: "char \<Rightarrow> bool" where
  "isLineTerminator c = (of_char c = (10::nat) \<or> of_char c = (13::nat))"

definition lowerChar :: "char \<Rightarrow> char" where
  "lowerChar c = (let n = (of_char c :: nat) in if 65 \<le> n \<and> n \<le> 90 then char_of (n + 32) else c)"

definition upperChar :: "char \<Rightarrow> char" where
  "upperChar c = (let n = (of_char c :: nat) in if 97 \<le> n \<and> n \<le> 122 then char_of (n - 32) else c)"

definition toLowerCase :: "string \<Rightarrow> string" where
  "toLowerCase s = map lowerChar s"

definition toUpperCase :: "string \<Rightarrow> string" where
  "toUpperCase s = map upperChar s"

definition str_includes :: "string \<Rightarrow> char \<Rightarrow> bool" where
  "str_includes s c = (c \<in> set s)"

definition endsWith :: "string \<Rightarrow> char \<Rightarrow> bool" where
  "endsWith s c = (s \<noteq> [] \<and> last s = c)"

definition replaceAll :: "string \<Rightarrow> char \<Rightarrow> string \<Rightarrow> string" where
  "replaceAll s c r = concat (map (\<lambda>x. if x = c then r else [x]) s)"

section \<open>Regular expressions\<close>

text \<open>
  \<^verbatim>\<open>new RegExp(source)\<close>, \<^verbatim>\<open>test\<close>, \<^verbatim>\<open>exec\<close> and \<^verbatim>\<open>String.replace\<close> are built into
  JavaScript. They are modelled by a parser of pattern sources and a backtracking matcher
  for the fragment of the pattern language that the compiler emits and that inline
  constraints usually use: literals, identity escapes, \<^verbatim>\<open>\d\<close>, \<^verbatim>\<open>\w\<close>, \<^verbatim>\<open>.\<close>, character
  classes, \<^verbatim>\<open>^\<close>, \<^verbatim>\<open>$\<close>, alternation, groups (capturing, named, non-capturing), positive
  lookahead and the quantifiers \<^verbatim>\<open>*\<close>, \<^verbatim>\<open>+\<close>, \<^verbatim>\<open>?\<close> with their lazy forms. A source
  outside the fragment is not given a meaning: the parser returns \<open>None\<close>, as it does
  for a source JavaScript rejects with a SyntaxError. Flags are not modelled (the compiler
  sets none).
\<close>

datatype cls_item = CChar char | CRange char char | CDigit | CWord

datatype rep_kind = RStar | RPlus | ROpt

datatype regex =
    REps
  | Chr char
  | Dot
  | Cls bool "cls_item list"
  | Bol
  | Eol
  | Seq regex regex
  | Alt regex regex
  | Rep rep_kind bool regex
  | Grp "string option" regex
  | Look regex

subsection \<open>Parsing a pattern source\<close>

text \<open>
  The parser reads the source one character at a time. Its state is the lexical mode, what
  the previous term allows a quantifier to do, and the stack of open groups; each frame
  holds the alternatives already closed and the terms of the current one, both reversed.
\<close>

datatype gkind = GTop | GCap "string option" | GNon | GLook

datatype pmode =
    Normal | Escape | AfterOpen | AfterQ | InName string
  | ClsStart | InCls bool "cls_item list" | ClsEsc bool "cls_item list"
  | ClsDash bool "cls_item list"

datatype lastq = NoAtom | Atom | Quant

type_synonym frame = "gkind \<times> regex list \<times> regex list"

type_synonym pstate = "pmode \<times> lastq \<times> frame list"

fun mkSeq :: "regex list \<Rightarrow> regex" where
  "mkSeq [] = REps"
| "mkSeq [t] = t"
| "mkSeq (t # ts) = Seq t (mkSeq ts)"

fun mkAlt :: "regex list \<Rightarrow> regex" where
  "mkAlt [] = REps"
| "mkAlt [t] = t"
| "mkAlt (t # ts) = Alt t (mkAlt ts)"

definition finish :: "regex list \<Rightarrow> regex list \<Rightarrow> regex" where
  "finish alts cur = mkAlt (rev (mkSeq (rev cur) # alts))"

definition mkGroup :: "gkind \<Rightarrow> regex \<Rightarrow> regex" where
  "mkGroup k r = (case k of GTop \<Rightarrow> r | GCap n \<Rightarrow> Grp n r | GNon \<Rightarrow> r | GLook \<Rightarrow> Look r)"

definition pushAtom :: "regex \<Rightarrow> frame list \<Rightarrow> pstate option" where
  "pushAtom a fs = (case fs of [] \<Rightarrow> None
     | (k, alts, cur) # rest \<Rightarrow> Some (Normal, Atom, (k, alts, a # cur) # rest))"

definition pushAssert :: "regex \<Rightarrow> frame list \<Rightarrow> pstate option" where
  "pushAssert a fs = (case fs of [] \<Rightarrow> None
     | (k, alts, cur) # rest \<Rightarrow> Some (Normal, NoAtom, (k, alts, a # cur) # rest))"

definition openGroup :: "gkind \<Rightarrow> frame list \<Rightarrow> pstate option" where
  "openGroup k fs = Some (Normal, NoAtom, (k, [], []) # fs)"

definition closeGroup :: "frame list \<Rightarrow> pstate option" where
  "closeGroup fs = (case fs of
       (k, alts, cur) # (k', alts', cur') # rest \<Rightarrow>
         Some (Normal, (if k = GLook then NoAtom else Atom),
               (k', alts', mkGroup k (finish alts cur) # cur') # rest)
     | _ \<Rightarrow> None)"

definition quantify :: "rep_kind \<Rightarrow> lastq \<Rightarrow> frame list \<Rightarrow> pstate option" where
  "quantify q lq fs = (case fs of
       (k, alts, t # cur) # rest \<Rightarrow>
         (case lq of
            Atom \<Rightarrow> Some (Normal, Quant, (k, alts, Rep q True t # cur) # rest)
          | Quant \<Rightarrow> (case (q, t) of
                (ROpt, Rep q' True t') \<Rightarrow> Some (Normal, NoAtom, (k, alts, Rep q' False t' # cur) # rest)
              | _ \<Rightarrow> None)
          | NoAtom \<Rightarrow> None)
     | _ \<Rightarrow> None)"

definition stepNormal :: "char \<Rightarrow> lastq \<Rightarrow> frame list \<Rightarrow> pstate option" where
  "stepNormal c lq fs =
    (if c = CHR 0x5C then Some (Escape, lq, fs)
     else if c = CHR ''('' then Some (AfterOpen, lq, fs)
     else if c = CHR '')'' then closeGroup fs
     else if c = CHR ''|'' then
       (case fs of [] \<Rightarrow> None
        | (k, alts, cur) # rest \<Rightarrow> Some (Normal, NoAtom, (k, mkSeq (rev cur) # alts, []) # rest))
     else if c = CHR ''*'' then quantify RStar lq fs
     else if c = CHR ''+'' then quantify RPlus lq fs
     else if c = CHR ''?'' then quantify ROpt lq fs
     else if c = CHR ''^'' then pushAssert Bol fs
     else if c = CHR ''$'' then pushAssert Eol fs
     else if c = CHR ''.'' then pushAtom Dot fs
     else if c = CHR ''['' then Some (ClsStart, lq, fs)
     else if c = CHR '']'' \<or> c = CHR ''{'' \<or> c = CHR ''}'' then None
     else pushAtom (Chr c) fs)"

definition stepCls :: "char \<Rightarrow> bool \<Rightarrow> cls_item list \<Rightarrow> lastq \<Rightarrow> frame list \<Rightarrow> pstate option" where
  "stepCls c neg items lq fs =
    (if c = CHR '']'' then pushAtom (Cls neg (rev items)) fs
     else if c = CHR 0x5C then Some (ClsEsc neg items, lq, fs)
     else if c = CHR ''-'' then
       (case items of CChar a # _ \<Rightarrow> Some (ClsDash neg items, lq, fs)
        | _ \<Rightarrow> Some (InCls neg (CChar c # items), lq, fs))
     else Some (InCls neg (CChar c # items), lq, fs))"

definition step :: "pstate \<Rightarrow> char \<Rightarrow> pstate option" where
  "step st c = (case st of (mode, lq, fs) \<Rightarrow>
    (case mode of
       Normal \<Rightarrow> stepNormal c lq fs
     | Escape \<Rightarrow>
         (if c = CHR ''d'' then pushAtom (Cls False [CDigit]) fs
          else if c = CHR ''w'' then pushAtom (Cls False [CWord]) fs
          else if isWordChar c then None
          else pushAtom (Chr c) fs)
     | AfterOpen \<Rightarrow>
         (if c = CHR ''?'' then Some (AfterQ, lq, fs)
          else (case openGroup (GCap None) fs of None \<Rightarrow> None
                | Some (m', lq', fs') \<Rightarrow> stepNormal c lq' fs'))
     | AfterQ \<Rightarrow>
         (if c = CHR '':'' then openGroup GNon fs
          else if c = CHR ''='' then openGroup GLook fs
          else if c = CHR ''<'' then Some (InName [], lq, fs)
          else None)
     | InName acc \<Rightarrow>
         (if c = CHR ''>'' then (if acc = [] then None else openGroup (GCap (Some (rev acc))) fs)
          else if isWordChar c then Some (InName (c # acc), lq, fs)
          else None)
     | ClsStart \<Rightarrow>
         (if c = CHR ''^'' then Some (InCls True [], lq, fs) else stepCls c False [] lq fs)
     | InCls neg items \<Rightarrow> stepCls c neg items lq fs
     | ClsEsc neg items \<Rightarrow>
         (if c = CHR ''d'' then Some (InCls neg (CDigit # items), lq, fs)
          else if c = CHR ''w'' then Some (InCls neg (CWord # items), lq, fs)
          else if isWordChar c then None
          else Some (InCls neg (CChar c # items), lq, fs))
     | ClsDash neg items \<Rightarrow>
         (if c = CHR '']'' then pushAtom (Cls neg (rev (CChar (CHR ''-'') # items))) fs
          else if c = CHR 0x5C then None
          else (case items of CChar a # more \<Rightarrow> Some (InCls neg (CRange a c # more), lq, fs)
                | _ \<Rightarrow> None))))"

fun steps :: "pstate \<Rightarrow> string \<Rightarrow> pstate option" where
  "steps st [] = Some st"
| "steps st (c # cs) = (case step st c of None \<Rightarrow> None | Some st' \<Rightarrow> steps st' cs)"

definition parseRegex :: "string \<Rightarrow> regex option" where
  "parseRegex src = (case steps (Normal, NoAtom, [(GTop, [], [])]) src of
       Some (Normal, lq, [(GTop, alts, cur)]) \<Rightarrow> Some (finish alts cur)
     | _ \<Rightarrow> None)"


subsection \<open>Matching\<close>

text \<open>
  \<open>rmatch r (i, s, cs)\<close> lists, in the order JavaScript's backtracking tries them, the
  ways \<open>r\<close> can match at position \<open>i\<close>, where \<open>s\<close> is the rest of the input and
  \<open>cs\<close> the named captures so far. As in the language definition, an iteration of
  \<^verbatim>\<open>*\<close> or \<^verbatim>\<open>?\<close> that consumes nothing is discarded, and the captures of the groups
  inside a quantified term are cleared when an iteration starts.
\<close>

type_synonym captures = "(string \<times> string) list"

type_synonym mstate = "nat \<times> string \<times> captures"

fun clsItemMatches :: "cls_item \<Rightarrow> char \<Rightarrow> bool" where
  "clsItemMatches (CChar a) c = (c = a)"
| "clsItemMatches (CRange a b) c = ((of_char a :: nat) \<le> of_char c \<and> (of_char c :: nat) \<le> of_char b)"
| "clsItemMatches CDigit c = isDigitChar c"
| "clsItemMatches CWord c = isWordChar c"

definition clsMatches :: "bool \<Rightarrow> cls_item list \<Rightarrow> char \<Rightarrow> bool" where
  "clsMatches neg items c = (neg \<noteq> list_ex (\<lambda>it. clsItemMatches it c) items)"

primrec rweight :: "regex \<Rightarrow> nat" where
  "rweight REps = 1"
| "rweight (Chr c) = 1"
| "rweight Dot = 1"
| "rweight (Cls neg items) = 1"
| "rweight Bol = 1"
| "rweight Eol = 1"
| "rweight (Seq a b) = 1 + rweight a + rweight b"
| "rweight (Alt a b) = 1 + rweight a + rweight b"
| "rweight (Rep k g r) = (if k = RPlus then 2 else 1) + rweight r"
| "rweight (Grp n r) = 1 + rweight r"
| "rweight (Look r) = 1 + rweight r"

primrec groupNames :: "regex \<Rightarrow> string list" where
  "groupNames REps = []"
| "groupNames (Chr c) = []"
| "groupNames Dot = []"
| "groupNames (Cls neg items) = []"
| "groupNames Bol = []"
| "groupNames Eol = []"
| "groupNames (Seq a b) = groupNames a @ groupNames b"
| "groupNames (Alt a b) = groupNames a @ groupNames b"
| "groupNames (Rep k g r) = groupNames r"
| "groupNames (Grp n r) = (case n of None \<Rightarrow> [] | Some x \<Rightarrow> [x]) @ groupNames r"
| "groupNames (Look r) = groupNames r"

definition clearCaps :: "string list \<Rightarrow> captures \<Rightarrow> captures" where
  "clearCaps ns cs = filter (\<lambda>(n, v). n \<notin> set ns) cs"

definition setCap :: "string option \<Rightarrow> string \<Rightarrow> captures \<Rightarrow> captures" where
  "setCap n v cs = (case n of None \<Rightarrow> cs | Some x \<Rightarrow> (x, v) # filter (\<lambda>(y, w). y \<noteq> x) cs)"

function rmatch :: "regex \<Rightarrow> mstate \<Rightarrow> mstate list" where
  "rmatch REps st = [st]"
| "rmatch (Chr c) (i, s, cs) =
     (case s of [] \<Rightarrow> [] | x # xs \<Rightarrow> if x = c then [(Suc i, xs, cs)] else [])"
| "rmatch Dot (i, s, cs) =
     (case s of [] \<Rightarrow> [] | x # xs \<Rightarrow> if isLineTerminator x then [] else [(Suc i, xs, cs)])"
| "rmatch (Cls neg items) (i, s, cs) =
     (case s of [] \<Rightarrow> [] | x # xs \<Rightarrow> if clsMatches neg items x then [(Suc i, xs, cs)] else [])"
| "rmatch Bol (i, s, cs) = (if i = 0 then [(i, s, cs)] else [])"
| "rmatch Eol (i, s, cs) = (if s = [] then [(i, s, cs)] else [])"
| "rmatch (Seq a b) st = concat (map (\<lambda>st'. rmatch b st') (rmatch a st))"
| "rmatch (Alt a b) st = rmatch a st @ rmatch b st"
| "rmatch (Rep k g r) (i, s, cs) =
     (case k of
        RPlus \<Rightarrow>
          concat (map (\<lambda>st'. rmatch (Rep RStar g r) st') (rmatch r (i, s, clearCaps (groupNames r) cs)))
      | ROpt \<Rightarrow>
          (let its = filter (\<lambda>(j, s', cs'). length s' < length s)
                       (rmatch r (i, s, clearCaps (groupNames r) cs))
           in if g then its @ [(i, s, cs)] else (i, s, cs) # its)
      | RStar \<Rightarrow>
          (let more = concat (map (\<lambda>(j, s', cs').
                          if length s' < length s then rmatch (Rep RStar g r) (j, s', cs') else [])
                       (rmatch r (i, s, clearCaps (groupNames r) cs)))
           in if g then more @ [(i, s, cs)] else (i, s, cs) # more))"
| "rmatch (Grp n r) (i, s, cs) =
     map (\<lambda>(j, s', cs'). (j, s', setCap n (take (j - i) s) cs')) (rmatch r (i, s, cs))"
| "rmatch (Look r) (i, s, cs) =
     (case rmatch r (i, s, cs) of [] \<Rightarrow> [] | (j, s', cs') # more \<Rightarrow> [(i, s, cs')])"
  by pat_completeness auto
termination
  by (relation "measures [\<lambda>(r, st). rweight r, \<lambda>(r, (i, s, cs)). length s]") auto

text \<open>
  A RegExp object is its source text and the pattern the source denotes. A source with
  two groups of the same name is rejected. \<open>search\<close> is the loop of \<^verbatim>\<open>exec\<close> over the start
  positions; \<open>str_replace\<close> is \<^verbatim>\<open>String.replace\<close> with a pattern without the global flag
  and a replacement without \<^verbatim>\<open>$\<close>; \<open>match_groups\<close> is the \<^verbatim>\<open>groups\<close> property of a
  match: undefined when the pattern has no named group, otherwise every name of the
  pattern, in order, with the capture or undefined.
\<close>

datatype regexp = RegExp (source: string) (ast: regex)

definition new_RegExp :: "string \<Rightarrow> regexp option" where
  "new_RegExp src =
     (case parseRegex src of
        None \<Rightarrow> None
      | Some r \<Rightarrow> if distinct (groupNames r) then Some (RegExp src r) else None)"

fun search :: "regex \<Rightarrow> nat \<Rightarrow> string \<Rightarrow> (nat \<times> mstate) option" where
  "search r i s =
     (case rmatch r (i, s, []) of
        m # more \<Rightarrow> Some (i, m)
      | [] \<Rightarrow> (case s of [] \<Rightarrow> None | x # xs \<Rightarrow> search r (Suc i) xs))"

definition regexp_exec :: "regexp \<Rightarrow> string \<Rightarrow> (nat \<times> mstate) option" where
  "regexp_exec re s = search (ast re) 0 s"

definition regexp_test :: "regexp \<Rightarrow> string \<Rightarrow> bool" where
  "regexp_test re s = (regexp_exec re s \<noteq> None)"

definition str_replace :: "string \<Rightarrow> regexp \<Rightarrow> string \<Rightarrow> string" where
  "str_replace s re r =
     (case regexp_exec re s of None \<Rightarrow> s
      | Some (i, (j, rest, cs)) \<Rightarrow> take i s @ r @ rest)"

definition match_groups :: "regexp \<Rightarrow> captures \<Rightarrow> (string \<times> string option) list option" where
  "match_groups re cs =
     (case groupNames (ast re) of [] \<Rightarrow> None
      | ns \<Rightarrow> Some (map (\<lambda>n. (n, map_of cs n)) ns))"

definition bs :: char where "bs = CHR 0x5C"

definition EMPTY_REGEX :: regexp where
  "EMPTY_REGEX = RegExp ''(?:)'' REps"

section \<open>Path patterns\<close>

text \<open>
  A path (and a route's pattern) is a string or a RegExp object. \<open>replaceParams\<close> is the
  call \<^verbatim>\<open>.replace(/:(\w+)(\(.+?\))?/g, ...)\<close> of \<^verbatim>\<open>patternToRegex\<close>: at a colon followed
  by word characters it takes the longest run of word characters as the parameter name,
  then, if a parenthesis follows, the shortest text \<^verbatim>\<open>(...)\<close> of at least one character
  without a line terminator as the inline constraint (\<open>paramConstraint\<close>).
\<close>

datatype jspath = PStr string | PRe regexp

definition paramConstraint :: "string \<Rightarrow> (string \<times> string) option" where
  "paramConstraint s =
     (case s of
        c # x # r \<Rightarrow>
          if c = CHR ''('' \<and> \<not> isLineTerminator x then
            (case dropWhile (\<lambda>d. d \<noteq> CHR '')'' \<and> \<not> isLineTerminator d) r of
               d # rest \<Rightarrow>
                 if d = CHR '')''
                 then Some (c # x # takeWhile (\<lambda>d. d \<noteq> CHR '')'' \<and> \<not> isLineTerminator d) r @ [d], rest)
                 else None
             | [] \<Rightarrow> None)
          else None
      | _ \<Rightarrow> None)"

lemma paramConstraint_shorter:
  assumes "paramConstraint s = Some (rx, rest)"
  shows "length rest < length s"
proof -
  from assms obtain c x r d where s: "s = c # x # r"
    and d: "dropWhile (\<lambda>d. d \<noteq> CHR '')'' \<and> \<not> isLineTerminator d) r = d # rest"
    by (auto simp: paramConstraint_def split: list.splits if_splits)
  have "length (d # rest) \<le> length r"
    using length_dropWhile_le[of "\<lambda>d. d \<noteq> CHR '')'' \<and> \<not> isLineTerminator d" r] d by simp
  with s show ?thesis by simp
qed

function replaceParams :: "string \<Rightarrow> string" where
  "replaceParams [] = []"
| "replaceParams (c # cs) =
     (if c = CHR '':'' \<and> takeWhile isWordChar cs \<noteq> [] then
        (case paramConstraint (dropWhile isWordChar cs) of
           Some (rx, rest) \<Rightarrow>
             ''(?<'' @ takeWhile isWordChar cs @ ''>'' @ rx @ ''($|'' @ [bs] @ ''/)'' @ '')''
               @ replaceParams rest
         | None \<Rightarrow>
             ''(?<'' @ takeWhile isWordChar cs @ ''>'' @ ''[^/]+'' @ '')''
               @ replaceParams (dropWhile isWordChar cs))
      else c # replaceParams cs)"
  by pat_completeness auto
termination
proof (relation "measure length")
  show "wf (measure length)" by simp
next
  fix c :: char and cs x2 x y
  assume "paramConstraint (dropWhile isWordChar cs) = Some x2" "(x, y) = x2"
  then have "length y < length (dropWhile isWordChar cs)"
    using paramConstraint_shorter[of "dropWhile isWordChar cs" x y] by simp
  also have "\<dots> \<le> length cs" by (rule length_dropWhile_le)
  finally show "(y, c # cs) \<in> measure length" by simp
next
  fix c :: char and cs
  show "(dropWhile isWordChar cs, c # cs) \<in> measure length"
    by (simp add: le_imp_less_Suc length_dropWhile_le)
next
  fix c :: char and cs
  show "(cs, c # cs) \<in> measure length" by simp
qed

definition patternToRegex :: "jspath \<Rightarrow> bool \<Rightarrow> regexp option" where
  "patternToRegex pattern isPrefix =
     (case pattern of
        PRe re \<Rightarrow> Some re
      | PStr p \<Rightarrow>
          if isPrefix \<and> p = [] then Some EMPTY_REGEX
          else new_RegExp (''^''
                 @ replaceParams
                     (replaceAll (replaceAll (replaceAll p (CHR ''.'') [bs, CHR ''.''])
                        (CHR ''-'') [bs, CHR ''-'']) (CHR ''*'') ''(.*)'')
                 @ (if isPrefix then ''(?=$|/)'' else ''$'')))"

definition specialChars :: string where
  "specialChars = ''*?+():{}[]''"

definition needsConversionToRegex :: "jspath \<Rightarrow> bool" where
  "needsConversionToRegex pattern =
     (case pattern of
        PRe re \<Rightarrow> False
      | PStr p \<Rightarrow>
          if p = ''/*'' then False
          else str_includes p (CHR ''*'') \<or> str_includes p (CHR ''?'') \<or> str_includes p (CHR ''+'')
             \<or> str_includes p (CHR ''('') \<or> str_includes p (CHR '')'') \<or> str_includes p (CHR '':'')
             \<or> str_includes p (CHR ''{'') \<or> str_includes p (CHR ''}'') \<or> str_includes p (CHR ''['')
             \<or> str_includes p (CHR '']''))"

definition extractParams :: "regexp \<Rightarrow> string \<Rightarrow> (string \<times> string option) list" where
  "extractParams pattern path =
     (case regexp_exec pattern path of
        None \<Rightarrow> []
      | Some (i, (j, rest, cs)) \<Rightarrow> (case match_groups pattern cs of None \<Rightarrow> [] | Some g \<Rightarrow> g))"

section \<open>Requests, responses and callbacks\<close>

text \<open>
  The values a continuation can be called with are \<open>undefined\<close>, \<open>null\<close>, booleans, strings
  and errors (message and rendered stack).
\<close>

datatype jsval = JUndefined | JNull | JBool bool | JStr string | JError string string

fun truthy :: "jsval \<Rightarrow> bool" where
  "truthy JUndefined = False"
| "truthy JNull = False"
| "truthy (JBool b) = b"
| "truthy (JStr s) = (s \<noteq> [])"
| "truthy (JError m s) = True"

text \<open>
  Modelled from the spec: the classes \<^verbatim>\<open>Request\<close> and \<^verbatim>\<open>Response\<close> are imported by
  \<^verbatim>\<open>router.js\<close> from files that are not part of the sources at hand. The records below
  hold the fields the router reads and writes: of the response the abort flag, the
  "headers already sent" flag, the status and the body; of the request the method, the raw
  path, the operative path \<^verbatim>\<open>_opPath\<close>, the query part, \<^verbatim>\<open>url\<close>, the mount stack
  \<^verbatim>\<open>_stack\<close>, the set \<^verbatim>\<open>_gotParams\<close> of parameter names whose hooks have run (kept in
  insertion order), \<^verbatim>\<open>params\<close> (in the order of the capture groups) and \<^verbatim>\<open>route\<close>,
  of which the routeKey is kept. The fields \<^verbatim>\<open>req.next\<close> and \<^verbatim>\<open>req.app\<close> are set by the
  router and never read by it; they are left out.
\<close>

record response =
  aborted :: bool
  headersSent :: bool
  statusCode :: nat
  body :: string

record request =
  req_method :: string
  req_path :: string
  opPath :: string
  urlQuery :: string
  url :: string
  stack :: "jspath list"
  gotParams :: "string list"
  params :: "(string \<times> string option) list"
  req_route :: "int option"

text \<open>
  A callback is a function of the request and the response that returns the response it
  leaves behind and what it did last: return without calling its continuation, call the
  continuation with a value, or throw. Callbacks are taken to be synchronous, to call the
  continuation at most once and as their last action, and not to catch what the
  continuation throws. A peer that aborts while a callback runs shows as the abort flag of
  the returned response. A function value carries its declared number of parameters and
  its behaviour when called with three and with four arguments. A param hook either calls
  its continuation or never does, in which case the promise the router awaits stays
  pending.

  The trace of a dispatch lists the calls made: callbacks by the routeKey of their entry, param
  hooks by parameter name and position, the error handler, and \<^verbatim>\<open>console.error\<close>.
\<close>

datatype outcome = Returns | CallsNext jsval | Throws jsval

datatype err_outcome = ErrReturns | ErrCallsNext | ErrThrows

datatype hook_outcome = HookNext | HookStalls

type_synonym handler_fn = "request \<Rightarrow> response \<Rightarrow> outcome \<times> response"

type_synonym errhandler_fn = "jsval \<Rightarrow> request \<Rightarrow> response \<Rightarrow> err_outcome \<times> response"

type_synonym hook_fn = "request \<Rightarrow> response \<Rightarrow> string option \<Rightarrow> string \<Rightarrow> hook_outcome \<times> response"

datatype jsfun = JSFun (arity: nat) (call3: handler_fn) (call4: errhandler_fn)

datatype event =
    Invoke int
  | HookCall string nat
  | ErrorRouteCall jsval
  | ConsoleError jsval

record dstate =
  req :: request
  res :: response
  trace :: "event list"

section \<open>Routers\<close>

text \<open>
  An entry of the route table has the fields \<^verbatim>\<open>#createRoute\<close> gives it. Its callback is a
  function or a router; a router owns its table, its param hooks, its error handler and its
  settings. A mounted router is part of the value of the entry that mounts it, so a
  configuration is a tree; the reference \<^verbatim>\<open>this.parent\<close> is represented by the flag
  \<open>hasParent\<close> and by the parent's settings lookup, which the operations take as an argument.
  The cache \<^verbatim>\<open>#mountpathCache\<close> only stores results of \<^verbatim>\<open>patternToRegex\<close> and is left
  out.
\<close>

datatype 'r callback_of = Handler jsfun | SubRouter 'r

datatype 'r route_of = Route
  (r_method: string)
  (r_path: jspath)
  (r_pattern: jspath)
  (r_callback: "'r callback_of")
  (routeSkipKey: int)
  (routeKey: int)
  (r_use: bool)
  (r_all: bool)

datatype router = Router
  (routes: "router route_of list")
  (paramCallbacks: "string \<Rightarrow> hook_fn list option")
  (errorRoute: "jsfun option")
  (settings: "string \<Rightarrow> jsval")
  (hasParent: bool)

type_synonym route = "router route_of"

type_synonym callback = "router callback_of"

type_synonym parent_get = "(string \<Rightarrow> jsval) option"

definition router_get :: "router \<Rightarrow> parent_get \<Rightarrow> string \<Rightarrow> jsval" where
  "router_get this par key =
     (if settings this key = JUndefined \<and> hasParent this
      then (case par of Some g \<Rightarrow> g key | None \<Rightarrow> JUndefined)
      else settings this key)"

definition pathToString :: "jspath \<Rightarrow> string" where
  "pathToString p = (case p of PStr s \<Rightarrow> s | PRe re \<Rightarrow> ''/'' @ source re @ ''/'')"

definition getFullMountpath :: "request \<Rightarrow> regexp option" where
  "getFullMountpath rq = patternToRegex (PStr (concat (map pathToString (stack rq)))) True"

definition pathMatches :: "router \<Rightarrow> parent_get \<Rightarrow> route \<Rightarrow> request \<Rightarrow> bool" where
  "pathMatches this par route rq =
     (case r_pattern route of
        PStr pattern \<Rightarrow>
          (let path = (if opPath rq = [] then ''/'' else opPath rq) in
           if \<not> truthy (router_get this par ''case sensitive routing'')
           then toLowerCase pattern = toLowerCase path \<or> toLowerCase pattern = ''/*''
           else pattern = path \<or> pattern = ''/*'')
      | PRe re \<Rightarrow> regexp_test re (opPath rq))"

section \<open>Dispatch\<close>

text \<open>
  \<^verbatim>\<open>_routeRequest\<close> returns a promise. The model threads the settled value of that promise
  through the walk: \<open>None\<close> while it is pending, \<open>Some b\<close> once \<^verbatim>\<open>resolve(b)\<close> has been
  called; later calls of \<^verbatim>\<open>resolve\<close> have no effect. A result \<open>None\<close> of the walk means that
  the promise never settles. Where the executor throws (a path template on the mount stack
  that does not compile, or an exception thrown by the error handler) the promise stays
  pending as well; these are the \<open>Stalls\<close> results.
\<close>

datatype progress = Proceeds | Stalls

fun runHooks :: "hook_fn list \<Rightarrow> nat \<Rightarrow> string \<Rightarrow> dstate \<Rightarrow> progress \<times> dstate" where
  "runHooks [] k p st = (Proceeds, st)"
| "runHooks (fn # fns) k p st =
     (case fn (req st) (res st) (case map_of (params (req st)) p of Some v \<Rightarrow> v | None \<Rightarrow> None) p of
        (out, res') \<Rightarrow>
          (let st' = st\<lparr>res := res', trace := trace st @ [HookCall p k]\<rparr> in
           case out of
             HookStalls \<Rightarrow> (Stalls, st')
           | HookNext \<Rightarrow> runHooks fns (Suc k) p st'))"

fun paramLoop :: "router \<Rightarrow> string list \<Rightarrow> dstate \<Rightarrow> progress \<times> dstate" where
  "paramLoop this [] st = (Proceeds, st)"
| "paramLoop this (p # ps) st =
     (case paramCallbacks this p of
        Some fns \<Rightarrow>
          if p \<notin> set (gotParams (req st)) then
            (case runHooks fns 0 p (st\<lparr>req := (req st)\<lparr>gotParams := gotParams (req st) @ [p]\<rparr>\<rparr>) of
               (Stalls, st') \<Rightarrow> (Stalls, st')
             | (Proceeds, st') \<Rightarrow> paramLoop this ps st')
          else paramLoop this ps st
      | None \<Rightarrow> paramLoop this ps st)"

definition isString :: "jspath \<Rightarrow> bool" where
  "isString p = (case p of PStr s \<Rightarrow> True | PRe re \<Rightarrow> False)"

definition isRegExp :: "jspath \<Rightarrow> bool" where
  "isRegExp p = (case p of PStr s \<Rightarrow> False | PRe re \<Rightarrow> True)"

definition preprocessRequest :: "router \<Rightarrow> dstate \<Rightarrow> route \<Rightarrow> progress \<times> dstate" where
  "preprocessRequest this st route =
     (let st0 = st\<lparr>req := (req st)\<lparr>req_route := Some (routeKey route)\<rparr>\<rparr> in
      case (r_path route, r_pattern route) of
        (PStr p, PRe pattern) \<Rightarrow>
          if str_includes p (CHR '':'') then
            (if stack (req st0) \<noteq> [] then
               (case getFullMountpath (req st0) of
                  None \<Rightarrow> (Stalls, st0)
                | Some mp \<Rightarrow>
                    (let st1 = st0\<lparr>req := (req st0)\<lparr>params :=
                                 extractParams pattern (str_replace (req_path (req st0)) mp [])\<rparr>\<rparr>
                     in paramLoop this (remdups (map fst (params (req st1)))) st1))
             else
               (let st1 = st0\<lparr>req := (req st0)\<lparr>params := extractParams pattern (req_path (req st0))\<rparr>\<rparr>
                in paramLoop this (remdups (map fst (params (req st1)))) st1))
          else (Proceeds, st0\<lparr>req := (req st0)\<lparr>params := []\<rparr>\<rparr>)
      | _ \<Rightarrow> (Proceeds, st0\<lparr>req := (req st0)\<lparr>params := []\<rparr>\<rparr>))"

definition generateErrorPage :: "router \<Rightarrow> parent_get \<Rightarrow> jsval \<Rightarrow> bool \<Rightarrow> string" where
  "generateErrorPage this par err checkEnv =
     (let err' = (if checkEnv \<and> router_get this par ''env'' = JStr ''production''
                  then JStr ''Internal Server Error'' else err)
      in ''<!DOCTYPE html>'' @ [CHR 0x0A] @ ''<html lang=\"en\">'' @ [CHR 0x0A]
         @ ''<head>'' @ [CHR 0x0A] @ ''<meta charset=\"utf-8\">'' @ [CHR 0x0A]
         @ ''<title>Error</title>'' @ [CHR 0x0A] @ ''</head>'' @ [CHR 0x0A]
         @ ''<body>'' @ [CHR 0x0A]
         @ ''<pre>'' @ (case err' of
                          JError m s \<Rightarrow> s
                        | JStr s \<Rightarrow> s
                        | JBool b \<Rightarrow> (if b then ''true'' else ''false'')
                        | JNull \<Rightarrow> ''null''
                        | JUndefined \<Rightarrow> ''undefined'') @ ''</pre>'' @ [CHR 0x0A]
         @ ''</body>'' @ [CHR 0x0A] @ ''</html>'' @ [CHR 0x0A])"

text \<open>
  Modelled from the spec: \<^verbatim>\<open>response.status(code).send(page)\<close> belongs to the absent class
  \<^verbatim>\<open>Response\<close>; of the response-writing primitives (status, headers, body, "headers
  already sent" flag) it sets the status and the body and marks the headers as sent.
\<close>

definition send :: "nat \<Rightarrow> string \<Rightarrow> response \<Rightarrow> response" where
  "send code page rs = rs\<lparr>statusCode := code, body := page, headersSent := True\<rparr>"

function skipTo :: "route list \<Rightarrow> int \<Rightarrow> nat \<Rightarrow> nat option" where
  "skipTo rs k i =
     (if i < length rs then (if routeKey (rs ! i) \<noteq> k then skipTo rs k (Suc i) else Some i)
      else None)"
  by pat_completeness auto
termination
  by (relation "measure (\<lambda>(rs, k, i). length rs - i)") auto

datatype hstep = Continue dstate nat | Stop dstate "bool option"

definition handleError :: "router \<Rightarrow> parent_get \<Rightarrow> jsval \<Rightarrow> bool \<Rightarrow> dstate \<Rightarrow> hstep" where
  "handleError this par err calledNext st =
     (case errorRoute this of
        Some f \<Rightarrow>
          (case call4 f err (req st) (res st) of
             (out, res') \<Rightarrow>
               (let st' = st\<lparr>res := res', trace := trace st @ [ErrorRouteCall err]\<rparr> in
                case out of
                  ErrCallsNext \<Rightarrow> Stop st' (Some (headersSent res'))
                | ErrReturns \<Rightarrow> Stop st' (Some True)
                | ErrThrows \<Rightarrow> Stop st' None))
      | None \<Rightarrow>
          Stop (st\<lparr>res := send 500 (generateErrorPage this par err True) (res st),
                    trace := trace st @ [ConsoleError err]\<rparr>)
               (if calledNext then None else Some True))"

definition typeError :: "string \<Rightarrow> jsval" where
  "typeError m = JError m (''TypeError: '' @ m)"

definition invokeHandler :: "router \<Rightarrow> parent_get \<Rightarrow> route \<Rightarrow> nat \<Rightarrow> jsfun \<Rightarrow> dstate \<Rightarrow> hstep" where
  "invokeHandler this par route i h st =
     (case call3 h (req st) (res st) of
        (out, res') \<Rightarrow>
          (let st' = st\<lparr>res := res', trace := trace st @ [Invoke (routeKey route)]\<rparr> in
           case out of
             Returns \<Rightarrow> Stop st' (Some True)
           | Throws err \<Rightarrow> handleError this par err False st'
           | CallsNext v \<Rightarrow>
               if truthy v then
                 (if v = JStr ''route'' then
                    (case skipTo (routes this) (routeSkipKey route) i of
                       Some j \<Rightarrow> Continue st' j
                     | None \<Rightarrow>
                         handleError this par
                           (typeError ''Cannot read properties of undefined (reading 'routeKey')'')
                           True st')
                  else handleError this par v True st')
               else Continue st' i))"

definition resolve :: "bool option \<Rightarrow> bool \<Rightarrow> bool option" where
  "resolve rsv b = (case rsv of None \<Rightarrow> Some b | Some b' \<Rightarrow> Some b')"

definition routeApplies :: "router \<Rightarrow> parent_get \<Rightarrow> route \<Rightarrow> dstate \<Rightarrow> bool" where
  "routeApplies this par route st =
     ((r_all route \<or> r_method route = req_method (req st)) \<and> pathMatches this par route (req st))"

definition enterSub :: "route \<Rightarrow> dstate \<Rightarrow> progress \<times> dstate" where
  "enterSub route st =
     (let st1 = st\<lparr>req := (req st)\<lparr>stack := stack (req st) @ [r_path route]\<rparr>\<rparr> in
      case getFullMountpath (req st1) of
        None \<Rightarrow> (Stalls, st1)
      | Some mp \<Rightarrow>
          (let op = str_replace (req_path (req st1)) mp [] in
           (Proceeds, st1\<lparr>req := (req st1)\<lparr>opPath := op, url := op @ urlQuery (req st1)\<rparr>\<rparr>)))"

definition leaveSub :: "dstate \<Rightarrow> progress \<times> dstate" where
  "leaveSub st =
     (let st1 = st\<lparr>req := (req st)\<lparr>stack := butlast (stack (req st))\<rparr>\<rparr> in
      if stack (req st1) \<noteq> [] then
        (case getFullMountpath (req st1) of
           None \<Rightarrow> (Stalls, st1)
         | Some mp \<Rightarrow>
             (let op = str_replace (req_path (req st1)) mp [] in
              (Proceeds, st1\<lparr>req := (req st1)\<lparr>opPath := op, url := op @ urlQuery (req st1)\<rparr>\<rparr>)))
      else (Proceeds, st1\<lparr>req := (req st1)\<lparr>opPath := req_path (req st1),
                                               url := req_path (req st1) @ urlQuery (req st1)\<rparr>\<rparr>))"

definition subParent :: "router \<Rightarrow> parent_get \<Rightarrow> router \<Rightarrow> parent_get" where
  "subParent this par sub = (if hasParent sub then Some (router_get this par) else None)"

lemma skipTo_ge: "skipTo rs k i = Some j \<Longrightarrow> i \<le> j \<and> j < length rs"
proof (induction rs k i rule: skipTo.induct)
  case (1 rs k i)
  then show ?case
    by (cases "i < length rs"; cases "routeKey (rs ! i) \<noteq> k") (auto split: if_splits)
qed

lemma subrouter_smaller:
  assumes i: "i < length (routes this)" and c: "r_callback (routes this ! i) = SubRouter sub"
  shows "size sub < size this"
proof -
  obtain rs pc er se hp where t: "this = Router rs pc er se hp" by (cases this)
  from i t have mem: "rs ! i \<in> set rs" by simp
  obtain m p pt cb sk k u a where r: "rs ! i = Route m p pt cb sk k u a" by (cases "rs ! i")
  with c t have cb: "cb = SubRouter sub" by simp
  have "size sub < size_route_of size (rs ! i)" unfolding r cb by simp
  also have "\<dots> \<le> size_list (size_route_of size) rs"
    using mem by (simp add: size_list_estimation')
  finally show ?thesis unfolding t by simp
qed

lemma handleError_Stop: "\<exists>s r. handleError this par e c st = Stop s r"
  by (simp add: handleError_def Let_def split: option.split prod.split err_outcome.split)

lemma invokeHandler_Continue:
  assumes "invokeHandler this par route i h st = Continue st' j"
  shows "i \<le> j \<and> (i < length (routes this) \<longrightarrow> j < length (routes this))"
proof -
  obtain out res' where c: "call3 h (req st) (res st) = (out, res')" by (cases "call3 h (req st) (res st)")
  have noC: "\<And>e c s. handleError this par e c s \<noteq> Continue st' j"
    using handleError_Stop[of this par] by (metis hstep.distinct(1))
  show ?thesis
  proof (cases out)
    case Returns
    with assms c show ?thesis by (simp add: invokeHandler_def)
  next
    case (Throws e)
    with assms c noC show ?thesis by (simp add: invokeHandler_def)
  next
    case (CallsNext v)
    show ?thesis
    proof (cases "truthy v")
      case False
      with assms c CallsNext show ?thesis by (auto simp: invokeHandler_def)
    next
      case True
      show ?thesis
      proof (cases "v = JStr ''route''")
        case False
        with assms c CallsNext True noC show ?thesis by (simp add: invokeHandler_def)
      next
        case r: True
        show ?thesis
        proof (cases "skipTo (routes this) (routeSkipKey route) i")
          case None
          with assms c CallsNext True r noC show ?thesis by (simp add: invokeHandler_def)
        next
          case (Some k)
          with assms c CallsNext True r have "k = j" by (simp add: invokeHandler_def)
          with Some skipTo_ge[of "routes this" "routeSkipKey route" i j] show ?thesis by auto
        qed
      qed
    qed
  qed
qed

function routeRequest :: "router \<Rightarrow> parent_get \<Rightarrow> dstate \<Rightarrow> nat \<Rightarrow> bool option \<Rightarrow> dstate \<times> bool option" where
  "routeRequest this par st i rsv =
     (if i < length (routes this) then
        if aborted (res st) then (st, resolve rsv False)
        else if routeApplies this par (routes this ! i) st then
          (case preprocessRequest this st (routes this ! i) of
             (Stalls, st1) \<Rightarrow> (st1, rsv)
           | (Proceeds, st1) \<Rightarrow>
               (case r_callback (routes this ! i) of
                  SubRouter sub \<Rightarrow>
                    (case enterSub (routes this ! i) st1 of
                       (Stalls, st2) \<Rightarrow> (st2, rsv)
                     | (Proceeds, st2) \<Rightarrow>
                         (case routeRequest sub (subParent this par sub) st2 0 None of
                            (st3, None) \<Rightarrow> (st3, rsv)
                          | (st3, Some handled) \<Rightarrow>
                              if handled then (st3, resolve rsv True)
                              else (case leaveSub st3 of
                                      (Stalls, st4) \<Rightarrow> (st4, rsv)
                                    | (Proceeds, st4) \<Rightarrow>
                                        routeRequest this par st4 (Suc i) (resolve rsv True))))
                | Handler h \<Rightarrow>
                    (case invokeHandler this par (routes this ! i) i h st1 of
                       Stop st2 r \<Rightarrow> (st2, case r of None \<Rightarrow> rsv | Some b \<Rightarrow> resolve rsv b)
                     | Continue st2 j \<Rightarrow> routeRequest this par st2 (Suc j) rsv)))
        else routeRequest this par st (Suc i) rsv
      else (st, resolve rsv False))"
  by pat_completeness auto
termination
  apply (relation "measures [\<lambda>(this, par, st, i, rsv). size this,
                           \<lambda>(this, par, st, i, rsv). length (routes this) - i]")
      apply simp
     apply (auto simp: subrouter_smaller dest!: invokeHandler_Continue)
  done

declare routeRequest.simps [simp del]
declare skipTo.simps [simp del]

section \<open>Registration\<close>

text \<open>
  The module-level counter \<^verbatim>\<open>routeKey\<close>, the router and the registrations made with the
  transport form the state of a registration. \<^verbatim>\<open>#createRoute\<close> fails (\<open>None\<close>) where the
  source throws: on a path template that does not compile. The optimizer is followed through
  mounted routers with its accumulators (the flattened chain, the stack of mount paths and
  the registrations) passed along, as the source passes the two arrays by reference.
\<close>

datatype patharg = Single jspath | Multi "jspath list"

datatype cbarg = One callback | Many "callback list"

datatype native_reg = NativeReg (n_method: string) (n_path: jspath) (n_route: route) (n_chain: "route list")

record regstate =
  routeKey_counter :: int
  this_router :: router
  uwsApp :: "native_reg list"

definition flat :: "cbarg list \<Rightarrow> callback list" where
  "flat callbacks = concat (map (\<lambda>a. case a of One c \<Rightarrow> [c] | Many cs \<Rightarrow> cs) callbacks)"

definition push_routes :: "route list \<Rightarrow> router \<Rightarrow> router" where
  "push_routes rs this =
     Router (routes this @ rs) (paramCallbacks this) (errorRoute this) (settings this) (hasParent this)"

definition set_errorRoute :: "jsfun \<Rightarrow> router \<Rightarrow> router" where
  "set_errorRoute f this =
     Router (routes this) (paramCallbacks this) (Some f) (settings this) (hasParent this)"

definition set_parent :: "router \<Rightarrow> router" where
  "set_parent this =
     Router (routes this) (paramCallbacks this) (errorRoute this) (settings this) True"

definition nativeMethods :: "string list" where
  "nativeMethods = [''GET'', ''POST'', ''PUT'', ''DELETE'', ''PATCH'', ''OPTIONS'', ''HEAD'',
                    ''CONNECT'', ''TRACE'']"

definition optMatches :: "route \<Rightarrow> route \<Rightarrow> bool" where
  "optMatches r route =
     (case r_pattern r of
        PRe re \<Rightarrow> regexp_test re (pathToString (r_path route))
      | PStr s \<Rightarrow> PStr s = r_path route \<or> s = ''*'' \<or> s = ''/*'')"

definition registerUwsRoute :: "route \<Rightarrow> route list \<Rightarrow> native_reg" where
  "registerUwsRoute route optimizedPath =
     (let m = toLowerCase (r_method route);
          m' = (if m = ''all'' then ''any'' else if m = ''delete'' then ''del'' else m)
      in NativeReg m' (r_path route) route optimizedPath)"

type_synonym optacc = "route list \<times> jspath list \<times> native_reg list"

definition optimizeEnd :: "route \<Rightarrow> optacc \<Rightarrow> optacc" where
  "optimizeEnd route acc =
     (case acc of (optimizedPath, stk, regs) \<Rightarrow>
        if stk = [] then
          (optimizedPath @ [route], stk, regs @ [registerUwsRoute route (optimizedPath @ [route])])
        else (optimizedPath, butlast stk, regs))"

lemma mounted_routes_smaller:
  "r_callback r = SubRouter sub \<Longrightarrow> size_list (size_route_of size) (routes sub) < size_route_of size r"
  by (cases r; cases sub) simp

function optimizeLoop :: "route \<Rightarrow> route list \<Rightarrow> optacc \<Rightarrow> optacc" where
  "optimizeLoop route [] acc = acc"
| "optimizeLoop route (r # rest) (optimizedPath, stk, regs) =
     (if routeKey r > routeKey route then (optimizedPath, stk, regs)
      else if \<not> r_all r \<and> r_method r \<noteq> r_method route then
        optimizeLoop route rest (optimizedPath, stk, regs)
      else if optMatches r route then
        (case r_callback r of
           SubRouter sub \<Rightarrow>
             optimizeLoop route rest
               (optimizeEnd r (optimizeLoop r (routes sub) (optimizedPath, stk @ [r_path r], regs)))
         | Handler h \<Rightarrow> optimizeLoop route rest (optimizedPath @ [r], stk, regs))
      else optimizeLoop route rest (optimizedPath, stk, regs))"
  by pat_completeness auto
termination
  apply (relation "measure (\<lambda>(route, rs, acc). size_list (size_route_of size) rs)")
      apply simp
     apply (auto dest: mounted_routes_smaller)
  done

definition optimizeRoute :: "route \<Rightarrow> route list \<Rightarrow> optacc \<Rightarrow> optacc" where
  "optimizeRoute route rs acc = optimizeEnd route (optimizeLoop route rs acc)"

definition normalizePath :: "router \<Rightarrow> parent_get \<Rightarrow> jspath \<Rightarrow> jspath" where
  "normalizePath this par path =
     (let p1 = (case path of
                  PStr s \<Rightarrow>
                    if \<not> truthy (router_get this par ''strict routing'') \<and> endsWith s (CHR ''/'')
                       \<and> s \<noteq> ''/''
                    then PStr (butlast s) else path
                | PRe re \<Rightarrow> path)
      in if p1 = PStr ''*'' then PStr ''/*'' else p1)"

definition makeRoute :: "string \<Rightarrow> jspath \<Rightarrow> callback \<Rightarrow> int \<Rightarrow> int \<Rightarrow> route option" where
  "makeRoute m path cb skipKey key =
     (case (if m = ''USE'' \<or> needsConversionToRegex path
            then map_option PRe (patternToRegex path (m = ''USE'')) else Some path) of
        None \<Rightarrow> None
      | Some pattern \<Rightarrow>
          Some (Route (if m = ''USE'' then ''ALL'' else toUpperCase m) path pattern cb skipKey key
                  (m = ''USE'') (m = ''ALL'' \<or> m = ''USE'')))"

fun pathLoop :: "string \<Rightarrow> callback \<Rightarrow> int \<Rightarrow> parent_get \<Rightarrow> jspath list \<Rightarrow>
    regstate \<times> route list \<Rightarrow> (regstate \<times> route list) option" where
  "pathLoop m cb skipKey par [] acc = Some acc"
| "pathLoop m cb skipKey par (p # ps) (st, rs) =
     (case makeRoute m (normalizePath (this_router st) par p) cb skipKey (routeKey_counter st) of
        None \<Rightarrow> None
      | Some route \<Rightarrow>
          (let st1 = st\<lparr>routeKey_counter := routeKey_counter st + 1\<rparr>;
               st2 = (if isString (r_pattern route) \<and> r_pattern route \<noteq> PStr ''/*''
                         \<and> \<not> hasParent (this_router st1)
                         \<and> truthy (router_get (this_router st1) par ''case sensitive routing'')
                         \<and> m \<in> set nativeMethods
                      then st1\<lparr>uwsApp := snd (snd (optimizeRoute route (routes (this_router st1))
                                                        ([], [], uwsApp st1)))\<rparr>
                      else st1)
           in pathLoop m cb skipKey par ps (st2, rs @ [route])))"

fun callbackLoop :: "string \<Rightarrow> patharg \<Rightarrow> int \<Rightarrow> parent_get \<Rightarrow> callback list \<Rightarrow>
    regstate \<Rightarrow> regstate option" where
  "callbackLoop m path skipKey par [] st = Some st"
| "callbackLoop m path skipKey par (cb # cbs) st =
     (case pathLoop m cb skipKey par (case path of Multi ps \<Rightarrow> ps | Single p \<Rightarrow> [p]) (st, []) of
        None \<Rightarrow> None
      | Some (st', rs) \<Rightarrow>
          callbackLoop m path skipKey par cbs (st'\<lparr>this_router := push_routes rs (this_router st')\<rparr>))"

definition createRoute :: "string \<Rightarrow> patharg \<Rightarrow> parent_get \<Rightarrow> cbarg list \<Rightarrow> regstate \<Rightarrow> regstate option" where
  "createRoute m path par callbacks st =
     callbackLoop m path (routeKey_counter st + int (length (flat callbacks)) - 1) par
       (flat callbacks) st"

datatype use_first = FirstFn jsfun | FirstRouter router | FirstArray "callback list" | FirstPath patharg

definition adopt :: "cbarg \<Rightarrow> cbarg" where
  "adopt a = (case a of One (SubRouter r) \<Rightarrow> One (SubRouter (set_parent r)) | _ \<Rightarrow> a)"

definition use :: "use_first \<Rightarrow> cbarg list \<Rightarrow> parent_get \<Rightarrow> regstate \<Rightarrow> regstate option" where
  "use first callbacks par st =
     (case first of
        FirstFn f \<Rightarrow>
          if callbacks = [] \<and> arity f = 4
          then Some (st\<lparr>this_router := set_errorRoute f (this_router st)\<rparr>)
          else createRoute ''USE'' (Single (PStr [])) par (map adopt (One (Handler f) # callbacks)) st
      | FirstRouter r \<Rightarrow>
          createRoute ''USE'' (Single (PStr [])) par (map adopt (One (SubRouter r) # callbacks)) st
      | FirstArray cs \<Rightarrow>
          createRoute ''USE'' (Single (PStr [])) par (map adopt (Many cs # callbacks)) st
      | FirstPath p \<Rightarrow>
          createRoute ''USE'' (if p = Single (PStr ''/'') then Single (PStr []) else p) par
            (map adopt callbacks) st)"

definition param :: "string list \<Rightarrow> hook_fn \<Rightarrow> router \<Rightarrow> router" where
  "param names fn this =
     fold (\<lambda>name r. Router (routes r)
                     ((paramCallbacks r)(name \<mapsto>
                        (case paramCallbacks r name of None \<Rightarrow> [] | Some fns \<Rightarrow> fns) @ [fn]))
                     (errorRoute r) (settings r) (hasParent r)) names this"

section \<open>Native dispatch of a flattened chain\<close>









section \<open>Auxiliary notions for the statements\<close>

text \<open>The class \<^verbatim>\<open>[^/]\<close> and the pattern that \<^verbatim>\<open>/:a/:b\<close> compiles to.\<close>

abbreviation notSlash :: regex where
  "notSlash \<equiv> Cls True [CChar CHR ''/'']"

abbreviation twoParams :: regex where
  "twoParams \<equiv>
     Seq Bol (Seq (Chr CHR ''/'') (Seq (Grp (Some ''a'') (Rep RPlus True notSlash))
       (Seq (Chr CHR ''/'') (Seq (Grp (Some ''b'') (Rep RPlus True notSlash)) Eol))))"






text \<open>
  Example configurations for the closed instances below: a fresh response and request
  (the Request constructor is not among the sources; a request starts with an empty mount
  stack, its relative path equal to its path, and no parameter processed), some
  callbacks, a fresh application with the default \<^verbatim>\<open>case sensitive routing\<close>, and
  route tables as \<^verbatim>\<open>#createRoute\<close> builds them.
\<close>

definition newResponse :: response where
  "newResponse = \<lparr>aborted = False, headersSent = False, statusCode = 200, body = []\<rparr>"

definition newRequest :: "string \<Rightarrow> string \<Rightarrow> dstate" where
  "newRequest m p =
     \<lparr>req = \<lparr>req_method = m, req_path = p, opPath = p, urlQuery = [], url = p, stack = [],
              gotParams = [], params = [], req_route = None\<rparr>,
      res = newResponse, trace = []\<rparr>"

definition ignoreError :: errhandler_fn where
  "ignoreError e rq rs = (ErrReturns, rs)"


definition hDone :: jsfun where
  "hDone = JSFun 3 (\<lambda>rq rs. (Returns, rs\<lparr>headersSent := True\<rparr>)) ignoreError"

definition hRoute :: jsfun where
  "hRoute = JSFun 3 (\<lambda>rq rs. (CallsNext (JStr ''route''), rs)) ignoreError"

definition hFail :: jsfun where
  "hFail = JSFun 3 (\<lambda>rq rs. (CallsNext (JStr ''boom''), rs)) ignoreError"

definition appSettings :: "string \<Rightarrow> jsval" where
  "appSettings key = (if key = ''case sensitive routing'' then JBool True else JUndefined)"

definition newApp :: regstate where
  "newApp = \<lparr>routeKey_counter = 0, this_router = Router [] (\<lambda>n. None) None appSettings False,
             uwsApp = []\<rparr>"

definition literalRoute :: "string \<Rightarrow> string \<Rightarrow> jsfun \<Rightarrow> int \<Rightarrow> int \<Rightarrow> route" where
  "literalRoute m p h sk k = Route m (PStr p) (PStr p) (Handler h) sk k False False"

definition groupApp :: router where
  "groupApp = Router [literalRoute ''GET'' ''/a'' hRoute 1 0, literalRoute ''GET'' ''/a'' hDone 1 1,
                      literalRoute ''GET'' ''/a'' hDone 2 2] (\<lambda>n. None) None appSettings False"

definition failApp :: router where
  "failApp = Router [literalRoute ''GET'' ''/a'' hFail 0 0] (\<lambda>n. None) None appSettings False"

definition hookContinues :: hook_fn where
  "hookContinues rq rs v n = (HookNext, rs)"

abbreviation idPattern :: regexp where
  "idPattern \<equiv> RegExp ''^/(?<id>[^/]+)$''
     (Seq Bol (Seq (Chr CHR ''/'') (Seq (Grp (Some ''id'') (Rep RPlus True notSlash)) Eol)))"

definition paramApp :: router where
  "paramApp = Router [Route ''GET'' (PStr ''/:id'') (PRe idPattern) (Handler hDone) 0 0 False False]
                (\<lambda>n. if n = ''id'' then Some [hookContinues, hookContinues] else None)
                None appSettings False"













text \<open>The paths of a registration: \<^verbatim>\<open>Array.isArray(path) ? path : [path]\<close>.\<close>

definition pathsOf :: "patharg \<Rightarrow> jspath list" where
  "pathsOf path = (case path of Multi ps \<Rightarrow> ps | Single p \<Rightarrow> [p])"

declare search.simps [simp del]

section \<open>The pattern compiler\<close>

subsection \<open>Which templates need a compiled pattern\<close>

text \<open>
  Claim C5, as amended. A template string needs conversion exactly when it is not the
  catch-all \<^verbatim>\<open>/*\<close> and contains one of the characters \<^verbatim>\<open>* ? + ( ) : { } [ ]\<close>. The
  claim as stated (every template containing one of them needs conversion) fails for
  \<^verbatim>\<open>/*\<close>, which the function excludes by an explicit test.
\<close>

theorem C5_needsConversionToRegex:
  "needsConversionToRegex (PStr t) = (t \<noteq> ''/*'' \<and> set t \<inter> set specialChars \<noteq> {})"
  by (auto simp: needsConversionToRegex_def str_includes_def specialChars_def)

theorem C5_catch_all_counterexample:
  "CHR ''*'' \<in> set ''/*'' \<and> CHR ''*'' \<in> set specialChars \<and> \<not> needsConversionToRegex (PStr ''/*'')"
  by (simp add: needsConversionToRegex_def specialChars_def)

subsection \<open>Two-parameter templates\<close>

lemma clearCaps_Nil: "clearCaps [] cs = cs"
  by (induction cs) (auto simp: clearCaps_def)

lemma rev_upt_Suc: "rev [0..<Suc n] = map Suc (rev [0..<n]) @ [0]"
proof -
  have "[0..<Suc n] = 0 # map Suc [0..<n]"
    by (simp only: upt_conv_Cons[OF zero_less_Suc] map_Suc_upt)
  then show ?thesis by (simp only: rev.simps rev_map)
qed

lemma star_notSlash:
  assumes "CHR ''/'' \<notin> set x" and "rest = [] \<or> hd rest = CHR ''/''"
  shows "rmatch (Rep RStar True notSlash) (i, x @ rest, cs)
         = map (\<lambda>k. (i + k, drop k x @ rest, cs)) (rev [0..<Suc (length x)])"
  using assms
proof (induction x arbitrary: i)
  case Nil
  then show ?case by (cases rest) (auto simp: clearCaps_Nil clsMatches_def)
next
  case (Cons a x)
  have "rmatch (Rep RStar True notSlash) (i, (a # x) @ rest, cs)
        = rmatch (Rep RStar True notSlash) (Suc i, x @ rest, cs) @ [(i, (a # x) @ rest, cs)]"
    using Cons.prems by (auto simp: clearCaps_Nil clsMatches_def)
  also have "rmatch (Rep RStar True notSlash) (Suc i, x @ rest, cs)
        = map (\<lambda>k. (Suc i + k, drop k x @ rest, cs)) (rev [0..<Suc (length x)])"
    using Cons by simp
  finally show ?case
    by (simp add: rev_upt_Suc[of "Suc (length x)"] comp_def del: upt_Suc)
qed

lemma plus_notSlash:
  assumes "CHR ''/'' \<notin> set x" and "rest = [] \<or> hd rest = CHR ''/''"
  shows "rmatch (Rep RPlus True notSlash) (i, x @ rest, cs)
         = map (\<lambda>k. (Suc (i + k), drop (Suc k) x @ rest, cs)) (rev [0..<length x])"
proof (cases x)
  case Nil
  with assms show ?thesis by (cases rest) (auto simp: clearCaps_Nil clsMatches_def)
next
  case (Cons a x')
  with assms have "rmatch (Rep RPlus True notSlash) (i, x @ rest, cs)
     = rmatch (Rep RStar True notSlash) (Suc i, x' @ rest, cs)"
    by (auto simp: clearCaps_Nil clsMatches_def)
  also have "\<dots> = map (\<lambda>k. (Suc i + k, drop k x' @ rest, cs)) (rev [0..<Suc (length x')])"
    using assms Cons by (intro star_notSlash) auto
  finally show ?thesis using Cons by simp
qed

lemma concat_first_only:
  assumes "\<And>k. k < n \<Longrightarrow> F k = []"
  shows "concat (map F (rev [0..<Suc n])) = F n"
proof -
  have "concat (map F (rev [0..<n])) = []" using assms by (induction n) auto
  then show ?thesis by simp
qed

lemma concat_all_empty:
  assumes "\<And>k. k < n \<Longrightarrow> F k = []"
  shows "concat (map F (rev [0..<n])) = []"
  using assms by (induction n) auto


lemma segment_then:
  assumes x: "CHR ''/'' \<notin> set x" "x \<noteq> []" and rest: "rest = [] \<or> hd rest = CHR ''/''"
    and K: "\<And>j s cs'. s \<noteq> [] \<Longrightarrow> hd s \<noteq> CHR ''/'' \<Longrightarrow> rmatch K (j, s, cs') = []"
  shows "rmatch (Seq (Grp (Some n) (Rep RPlus True notSlash)) K) (i, x @ rest, cs)
         = rmatch K (i + length x, rest, setCap (Some n) x cs)"
proof -
  obtain m where m: "length x = Suc m" using x(2) by (cases x) auto
  define G where "G = (\<lambda>k. (Suc (i + k), drop (Suc k) x @ rest, setCap (Some n) (take (Suc k) (x @ rest)) cs))"
  have p: "rmatch (Rep RPlus True notSlash) (i, x @ rest, cs)
         = map (\<lambda>k. (Suc (i + k), drop (Suc k) x @ rest, cs)) (rev [0..<Suc m])"
    using plus_notSlash[OF x(1) rest, of i cs] m by simp
  have g: "rmatch (Grp (Some n) (Rep RPlus True notSlash)) (i, x @ rest, cs) = map G (rev [0..<Suc m])"
    unfolding rmatch.simps(10) p G_def by (simp add: comp_def del: upt_Suc)
  have "rmatch (Seq (Grp (Some n) (Rep RPlus True notSlash)) K) (i, x @ rest, cs)
        = concat (map (\<lambda>k. rmatch K (G k)) (rev [0..<Suc m]))"
    unfolding rmatch.simps(7) g by (simp only: map_map comp_def)
  also have "\<dots> = rmatch K (G m)"
  proof (rule concat_first_only)
    fix k assume k: "k < m"
    then have ne: "drop (Suc k) x \<noteq> []" using m by simp
    then have "hd (drop (Suc k) x) \<in> set x"
      by (meson hd_in_set in_set_dropD)
    with ne have "drop (Suc k) x @ rest \<noteq> []" "hd (drop (Suc k) x @ rest) \<noteq> CHR ''/''"
      using x(1) by auto
    then show "rmatch K (G k) = []" unfolding G_def by (rule K)
  qed
  also have "G m = (i + length x, rest, setCap (Some n) x cs)" using m by (simp add: G_def)
  finally show ?thesis .
qed

lemma search_Bol_later: "search (Seq Bol r) (Suc i) s = None"
proof (induction s arbitrary: i)
  case Nil
  show ?case by (subst search.simps) simp
next
  case (Cons a s)
  show ?case by (subst search.simps) (simp add: Cons)
qed

lemma compile_twoParams:
  "patternToRegex (PStr ''/:a/:b'') False = Some (RegExp ''^/(?<a>[^/]+)/(?<b>[^/]+)$'' twoParams)"
  by code_simp

lemma seq_Bol0: "rmatch (Seq Bol r) (0, s, cs) = rmatch r (0, s, cs)"
  by (simp only: rmatch.simps) simp

lemma seq_Chr_hit: "rmatch (Seq (Chr c) r) (i, c # s, cs) = rmatch r (Suc i, s, cs)"
  by (simp only: rmatch.simps) simp

lemma seq_Chr_miss: "s = [] \<or> hd s \<noteq> c \<Longrightarrow> rmatch (Seq (Chr c) r) (i, s, cs) = []"
  by (cases s) (simp_all only: rmatch.simps, simp_all)

lemma twoParams_match:
  assumes "CHR ''/'' \<notin> set x" "x \<noteq> []" "CHR ''/'' \<notin> set y" "y \<noteq> []"
  shows "rmatch twoParams (0, CHR ''/'' # x @ CHR ''/'' # y, [])
         = [(2 + length x + length y, [], [(''b'', y), (''a'', x)])]"
proof -
  let ?K = "Seq (Chr CHR ''/'') (Seq (Grp (Some ''b'') (Rep RPlus True notSlash)) Eol)"
  have K: "\<And>j s cs'. s \<noteq> [] \<Longrightarrow> hd s \<noteq> CHR ''/'' \<Longrightarrow> rmatch ?K (j, s, cs') = []"
    by (rule seq_Chr_miss) simp
  have E: "\<And>j s cs'. s \<noteq> [] \<Longrightarrow> hd s \<noteq> CHR ''/'' \<Longrightarrow> rmatch Eol (j, s, cs') = []"
    by (simp only: rmatch.simps if_False)
  have "rmatch twoParams (0, CHR ''/'' # x @ CHR ''/'' # y, [])
        = rmatch (Seq (Grp (Some ''a'') (Rep RPlus True notSlash)) ?K) (Suc 0, x @ (CHR ''/'' # y), [])"
    by (simp only: seq_Bol0 seq_Chr_hit)
  also have "\<dots> = rmatch ?K (Suc 0 + length x, CHR ''/'' # y, setCap (Some ''a'') x [])"
    by (rule segment_then[OF assms(1,2) _ K]) simp_all
  also have "\<dots> = rmatch (Seq (Grp (Some ''b'') (Rep RPlus True notSlash)) Eol)
                      (Suc (Suc 0 + length x), y @ [], setCap (Some ''a'') x [])"
    by (simp only: seq_Chr_hit append_Nil2)
  also have "\<dots> = rmatch Eol (Suc (Suc 0 + length x) + length y, [],
                       setCap (Some ''b'') y (setCap (Some ''a'') x []))"
    by (rule segment_then[OF assms(3,4) _ E]) simp_all
  also have "\<dots> = [(2 + length x + length y, [], [(''b'', y), (''a'', x)])]"
    by (simp only: rmatch.simps) (simp add: setCap_def)
  finally show ?thesis .
qed

lemma twoParams_one_segment:
  assumes "CHR ''/'' \<notin> set x" "x \<noteq> []"
  shows "rmatch twoParams (0, CHR ''/'' # x, []) = []"
proof -
  let ?K = "Seq (Chr CHR ''/'') (Seq (Grp (Some ''b'') (Rep RPlus True notSlash)) Eol)"
  have K: "\<And>j s cs'. s \<noteq> [] \<Longrightarrow> hd s \<noteq> CHR ''/'' \<Longrightarrow> rmatch ?K (j, s, cs') = []"
    by (rule seq_Chr_miss) simp
  have "rmatch twoParams (0, CHR ''/'' # x, [])
        = rmatch (Seq (Grp (Some ''a'') (Rep RPlus True notSlash)) ?K) (Suc 0, x @ [], [])"
    by (simp only: seq_Bol0 seq_Chr_hit append_Nil2)
  also have "\<dots> = rmatch ?K (Suc 0 + length x, [], setCap (Some ''a'') x [])"
    by (rule segment_then[OF assms(1,2) _ K]) simp_all
  also have "\<dots> = []" by (rule seq_Chr_miss) simp
  finally show ?thesis .
qed

lemma exec_twoParams_match:
  assumes "CHR ''/'' \<notin> set x" "x \<noteq> []" "CHR ''/'' \<notin> set y" "y \<noteq> []"
  shows "regexp_exec (RegExp src twoParams) (CHR ''/'' # x @ CHR ''/'' # y)
           = Some (0, (2 + length x + length y, [], [(''b'', y), (''a'', x)]))"
  by (simp only: regexp_exec_def regexp.sel search.simps[of twoParams 0 "CHR ''/'' # x @ CHR ''/'' # y"]
        twoParams_match[OF assms] list.case)

lemma exec_twoParams_one_segment:
  assumes "CHR ''/'' \<notin> set x" "x \<noteq> []"
  shows "regexp_exec (RegExp src twoParams) (CHR ''/'' # x) = None"
  by (simp only: regexp_exec_def regexp.sel search.simps[of twoParams 0 "CHR ''/'' # x"]
        list.case twoParams_one_segment[OF assms] search_Bol_later)

text \<open>
  Claim C6. The template \<^verbatim>\<open>/:a/:b\<close> compiles to a pattern, and for all non-empty
  segments \<open>x\<close> and \<open>y\<close> without a slash, the path \<^verbatim>\<open>/x/y\<close> matches it with the named
  captures \<open>a = x\<close> and \<open>b = y\<close> (what \<^verbatim>\<open>#extractParams\<close> returns), while the one-segment
  path \<^verbatim>\<open>/x\<close> does not match and yields no captures.
\<close>

theorem C6_two_parameters:
  assumes "x \<noteq> []" "y \<noteq> []" "CHR ''/'' \<notin> set x" "CHR ''/'' \<notin> set y"
  shows "\<exists>re. patternToRegex (PStr ''/:a/:b'') False = Some re
           \<and> regexp_test re (''/'' @ x @ ''/'' @ y)
           \<and> extractParams re (''/'' @ x @ ''/'' @ y) = [(''a'', Some x), (''b'', Some y)]
           \<and> \<not> regexp_test re (''/'' @ x)
           \<and> extractParams re (''/'' @ x) = []"
proof -
  let ?re = "RegExp ''^/(?<a>[^/]+)/(?<b>[^/]+)$'' twoParams"
  have s2: "''/'' @ x @ ''/'' @ y = CHR ''/'' # x @ CHR ''/'' # y" and s1: "''/'' @ x = CHR ''/'' # x"
    by simp_all
  note m = exec_twoParams_match[OF assms(3,1,4,2), of "''^/(?<a>[^/]+)/(?<b>[^/]+)$''"]
  note n = exec_twoParams_one_segment[OF assms(3,1), of "''^/(?<a>[^/]+)/(?<b>[^/]+)$''"]
  have "regexp_test ?re (''/'' @ x @ ''/'' @ y)"
    unfolding s2 regexp_test_def m by simp
  moreover have "extractParams ?re (''/'' @ x @ ''/'' @ y) = [(''a'', Some x), (''b'', Some y)]"
    unfolding s2 extractParams_def m by (simp add: match_groups_def)
  moreover have "\<not> regexp_test ?re (''/'' @ x)"
    unfolding s1 regexp_test_def n by simp
  moreover have "extractParams ?re (''/'' @ x) = []"
    unfolding s1 extractParams_def n by simp
  ultimately show ?thesis using compile_twoParams by blast
qed

theorem C6_two_parameters_witness:
  "\<exists>re. patternToRegex (PStr ''/:a/:b'') False = Some re
           \<and> regexp_test re ''/x/y''
           \<and> extractParams re ''/x/y'' = [(''a'', Some ''x''), (''b'', Some ''y'')]
           \<and> \<not> regexp_test re ''/x''
           \<and> extractParams re ''/x'' = []"
  using C6_two_parameters[of "''x''" "''y''"] by simp



section \<open>The generic walk\<close>

lemma groupApp_built:
  "Option.bind (createRoute ''GET'' (Single (PStr ''/a'')) None [One (Handler hRoute), One (Handler hDone)] newApp)
     (\<lambda>st. map_option this_router (createRoute ''GET'' (Single (PStr ''/a'')) None [One (Handler hDone)] st))
   = Some groupApp"
  apply (simp add: createRoute_def flat_def newApp_def makeRoute_def normalizePath_def needsConversionToRegex_def
      str_includes_def endsWith_def router_get_def appSettings_def groupApp_def literalRoute_def push_routes_def
      toUpperCase_def upperChar_def isString_def nativeMethods_def Let_def)
  done

subsection \<open>Aborted requests\<close>



subsection \<open>Preprocessing\<close>

lemma makeRoute_path: "makeRoute m path cb sk k = Some route \<Longrightarrow> r_path route = path"
  by (auto simp: makeRoute_def split: option.splits if_splits)

text \<open>
  Claim C10. Unless the entry's original path is a string containing a colon and its
  pattern is a RegExp, preprocessing only records the route and sets the parameters to
  the empty object: no parameter is extracted, no hook runs (the trace and the set of
  processed names are unchanged). In particular this is so for every route registered
  with a pre-built RegExp object as its path, whatever groups the object has.
\<close>

theorem C10_params_only_for_templates:
  shows "(\<not> (\<exists>s re. r_path route = PStr s \<and> str_includes s (CHR '':'') \<and> r_pattern route = PRe re)
            \<longrightarrow> preprocessRequest this st route
                = (Proceeds, st\<lparr>req := (req st)\<lparr>req_route := Some (routeKey route), params := []\<rparr>\<rparr>))
       \<and> (makeRoute m (PRe re') cb sk k = Some route'
            \<longrightarrow> preprocessRequest this st route'
                = (Proceeds, st\<lparr>req := (req st)\<lparr>req_route := Some (routeKey route'), params := []\<rparr>\<rparr>))"
proof -
  have g: "preprocessRequest this st r
                = (Proceeds, st\<lparr>req := (req st)\<lparr>req_route := Some (routeKey r), params := []\<rparr>\<rparr>)"
    if "\<not> (\<exists>s re. r_path r = PStr s \<and> str_includes s (CHR '':'') \<and> r_pattern r = PRe re)" for r
    using that by (auto simp: preprocessRequest_def Let_def split: jspath.splits)
  show ?thesis
  proof (intro conjI impI)
    assume "\<not> (\<exists>s re. r_path route = PStr s \<and> str_includes s (CHR '':'') \<and> r_pattern route = PRe re)"
    then show "preprocessRequest this st route
                = (Proceeds, st\<lparr>req := (req st)\<lparr>req_route := Some (routeKey route), params := []\<rparr>\<rparr>)"
      by (rule g)
  next
    assume "makeRoute m (PRe re') cb sk k = Some route'"
    then have "r_path route' = PRe re'" by (rule makeRoute_path)
    then show "preprocessRequest this st route'
                = (Proceeds, st\<lparr>req := (req st)\<lparr>req_route := Some (routeKey route'), params := []\<rparr>\<rparr>)"
      by (intro g) simp
  qed
qed

theorem C10_params_only_for_templates_witness:
  "preprocessRequest groupApp (newRequest ''GET'' ''/x7'')
      (Route ''GET'' (PRe (RegExp ''^/(?<id>x.)$'' (Seq Bol (Seq (Chr CHR ''/'') (Seq (Grp (Some ''id'') (Seq (Chr CHR ''x'') Dot)) Eol)))))
                     (PRe (RegExp ''^/(?<id>x.)$'' (Seq Bol (Seq (Chr CHR ''/'') (Seq (Grp (Some ''id'') (Seq (Chr CHR ''x'') Dot)) Eol)))))
                     (Handler hDone) 0 0 False False)
    = (Proceeds, (newRequest ''GET'' ''/x7'')\<lparr>req := (req (newRequest ''GET'' ''/x7''))\<lparr>req_route := Some 0, params := []\<rparr>\<rparr>)
   \<and> makeRoute ''GET'' (PRe (RegExp ''^/(?<id>x.)$'' (Seq Bol (Seq (Chr CHR ''/'') (Seq (Grp (Some ''id'') (Seq (Chr CHR ''x'') Dot)) Eol))))) (Handler hDone) 0 0
       = Some (Route ''GET'' (PRe (RegExp ''^/(?<id>x.)$'' (Seq Bol (Seq (Chr CHR ''/'') (Seq (Grp (Some ''id'') (Seq (Chr CHR ''x'') Dot)) Eol)))))
                     (PRe (RegExp ''^/(?<id>x.)$'' (Seq Bol (Seq (Chr CHR ''/'') (Seq (Grp (Some ''id'') (Seq (Chr CHR ''x'') Dot)) Eol)))))
                     (Handler hDone) 0 0 False False)"
  using C10_params_only_for_templates[where route="Route ''GET'' (PRe (RegExp ''^/(?<id>x.)$'' (Seq Bol (Seq (Chr CHR ''/'') (Seq (Grp (Some ''id'') (Seq (Chr CHR ''x'') Dot)) Eol)))))
                     (PRe (RegExp ''^/(?<id>x.)$'' (Seq Bol (Seq (Chr CHR ''/'') (Seq (Grp (Some ''id'') (Seq (Chr CHR ''x'') Dot)) Eol)))))
                     (Handler hDone) 0 0 False False" and this=groupApp and st="newRequest ''GET'' ''/x7''"]
  by (simp add: makeRoute_def needsConversionToRegex_def toUpperCase_def upperChar_def)

subsection \<open>Errors\<close>

lemma walk_at_handler:
  assumes "i < length (routes this)" "\<not> aborted (res st)"
    and "routeApplies this par (routes this ! i) st"
    and "preprocessRequest this st (routes this ! i) = (Proceeds, st1)"
    and "r_callback (routes this ! i) = Handler h"
  shows "routeRequest this par st i rsv =
           (case invokeHandler this par (routes this ! i) i h st1 of
              Stop st2 r \<Rightarrow> (st2, case r of None \<Rightarrow> rsv | Some b \<Rightarrow> resolve rsv b)
            | Continue st2 j \<Rightarrow> routeRequest this par st2 (Suc j) rsv)"
  using assms by (subst routeRequest.simps) simp

text \<open>
  Claim C8. Let the entry under the cursor of a router match and be a terminal handler
  that calls its continuation with a truthy value other than \<^verbatim>\<open>'route'\<close>, or throws.
  If that router has an error handler, the handler is called with the error, the request
  and the response the callback left, and the walk stops; if it has none, the error is
  logged, the response becomes the status-500 error page, and the walk stops. The error
  handler of a router is what \<^verbatim>\<open>use\<close> stores when it is given a single function of
  four parameters (no route entry is created for it).
\<close>

theorem C8_error_delivery:
  assumes i: "i < length (routes this)" and na: "\<not> aborted (res st)"
    and ap: "routeApplies this par (routes this ! i) st"
    and pp: "preprocessRequest this st (routes this ! i) = (Proceeds, st1)"
    and cb: "r_callback (routes this ! i) = Handler h"
    and out: "call3 h (req st1) (res st1) = (out, res1)"
    and err: "(out = CallsNext e \<and> truthy e \<and> e \<noteq> JStr ''route'') \<or> out = Throws e"
  shows "(\<forall>f eo res2. errorRoute this = Some f \<and> call4 f e (req st1) res1 = (eo, res2) \<longrightarrow>
            routeRequest this par st i rsv =
              (st1\<lparr>res := res2,
                   trace := trace st1 @ [Invoke (routeKey (routes this ! i)), ErrorRouteCall e]\<rparr>,
               case eo of ErrCallsNext \<Rightarrow> resolve rsv (headersSent res2)
                        | ErrReturns \<Rightarrow> resolve rsv True
                        | ErrThrows \<Rightarrow> rsv))
       \<and> (errorRoute this = None \<longrightarrow>
            routeRequest this par st i rsv =
              (st1\<lparr>res := send 500 (generateErrorPage this par e True) res1,
                   trace := trace st1 @ [Invoke (routeKey (routes this ! i)), ConsoleError e]\<rparr>,
               if out = Throws e then resolve rsv True else rsv))
       \<and> (\<forall>f rst. arity f = 4 \<longrightarrow>
            use (FirstFn f) [] par rst = Some (rst\<lparr>this_router := set_errorRoute f (this_router rst)\<rparr>)
            \<and> errorRoute (set_errorRoute f (this_router rst)) = Some f
            \<and> routes (set_errorRoute f (this_router rst)) = routes (this_router rst))"
proof (intro conjI allI impI)
  fix f eo res2
  assume "errorRoute this = Some f \<and> call4 f e (req st1) res1 = (eo, res2)"
  then show "routeRequest this par st i rsv =
              (st1\<lparr>res := res2,
                   trace := trace st1 @ [Invoke (routeKey (routes this ! i)), ErrorRouteCall e]\<rparr>,
               case eo of ErrCallsNext \<Rightarrow> resolve rsv (headersSent res2)
                        | ErrReturns \<Rightarrow> resolve rsv True
                        | ErrThrows \<Rightarrow> rsv)"
    using err out
    by (cases eo) (auto simp: walk_at_handler[OF i na ap pp cb] invokeHandler_def handleError_def)
next
  assume "errorRoute this = None"
  then show "routeRequest this par st i rsv =
              (st1\<lparr>res := send 500 (generateErrorPage this par e True) res1,
                   trace := trace st1 @ [Invoke (routeKey (routes this ! i)), ConsoleError e]\<rparr>,
               if out = Throws e then resolve rsv True else rsv)"
    using err out
    by (auto simp: walk_at_handler[OF i na ap pp cb] invokeHandler_def handleError_def)
next
  fix f :: jsfun and rst :: regstate
  assume "arity f = 4"
  then show "use (FirstFn f) [] par rst = Some (rst\<lparr>this_router := set_errorRoute f (this_router rst)\<rparr>)"
    by (simp add: use_def)
next
  fix f :: jsfun and rst :: regstate
  show "errorRoute (set_errorRoute f (this_router rst)) = Some f" by (simp add: set_errorRoute_def)
next
  fix f :: jsfun and rst :: regstate
  show "routes (set_errorRoute f (this_router rst)) = routes (this_router rst)"
    by (simp add: set_errorRoute_def)
qed

theorem C8_error_delivery_witness:
  "routeRequest failApp None (newRequest ''GET'' ''/a'') 0 None
   = ((newRequest ''GET'' ''/a'')\<lparr>req := (req (newRequest ''GET'' ''/a''))\<lparr>req_route := Some 0\<rparr>,
        res := send 500 (generateErrorPage failApp None (JStr ''boom'') True) newResponse,
        trace := [Invoke 0, ConsoleError (JStr ''boom'')]\<rparr>, None)
   \<and> use (FirstFn (JSFun 4 (\<lambda>rq rs. (Returns, rs)) ignoreError)) [] None newApp
       = Some (newApp\<lparr>this_router := set_errorRoute (JSFun 4 (\<lambda>rq rs. (Returns, rs)) ignoreError) (this_router newApp)\<rparr>)"
proof -
  let ?st = "newRequest ''GET'' ''/a''"
  let ?st1 = "?st\<lparr>req := (req ?st)\<lparr>req_route := Some 0, params := []\<rparr>\<rparr>"
  have i: "0 < length (routes failApp)" by (simp add: failApp_def)
  have na: "\<not> aborted (res ?st)" by (simp add: newRequest_def newResponse_def)
  have ap: "routeApplies failApp None (routes failApp ! 0) ?st"
    by (simp add: routeApplies_def pathMatches_def failApp_def literalRoute_def newRequest_def
        router_get_def appSettings_def)
  have pp: "preprocessRequest failApp ?st (routes failApp ! 0) = (Proceeds, ?st1)"
    by (simp add: preprocessRequest_def failApp_def literalRoute_def)
  have cb: "r_callback (routes failApp ! 0) = Handler hFail"
    by (simp add: failApp_def literalRoute_def)
  have out: "call3 hFail (req ?st1) (res ?st1) = (CallsNext (JStr ''boom''), res ?st1)"
    by (simp add: hFail_def)
  have err: "(CallsNext (JStr ''boom'') = CallsNext (JStr ''boom'') \<and> truthy (JStr ''boom'')
               \<and> JStr ''boom'' \<noteq> JStr ''route'') \<or> CallsNext (JStr ''boom'') = Throws (JStr ''boom'')"
    by simp
  have none: "errorRoute failApp = None" by (simp add: failApp_def)
  have four: "arity (JSFun 4 (\<lambda>rq rs. (Returns, rs)) ignoreError) = 4" by simp
  show ?thesis
    using C8_error_delivery[OF i na ap pp cb out err, where rsv=None] none four
    by (simp add: failApp_def literalRoute_def newRequest_def)
qed

subsection \<open>Skipping the rest of a handler group\<close>





subsection \<open>Mounted routers\<close>






lemma resolve_Some [simp]: "resolve (Some b) c = Some b"
  by (simp add: resolve_def)

lemma resolve_None [simp]: "resolve None c = Some c"
  by (simp add: resolve_def)















subsection \<open>Param hooks\<close>




















lemma compile_idPattern: "patternToRegex (PStr ''/:id'') False = Some idPattern"
  by code_simp

lemma paramApp_route: "makeRoute ''GET'' (PStr ''/:id'') (Handler hDone) 0 0 = Some (routes paramApp ! 0)"
  by (simp add: paramApp_def makeRoute_def needsConversionToRegex_def str_includes_def
      compile_idPattern toUpperCase_def upperChar_def)





section \<open>Groups of entries\<close>

text \<open>
  One call of \<^verbatim>\<open>#createRoute\<close> appends one entry per pair of a callback and a path, with
  consecutive routeKeys starting at the counter; all of them get the routeSkipKey computed
  before the loops, the counter plus the number of callbacks minus one. For a single path
  this is the routeKey of the last entry of the call.
\<close>

lemma makeRoute_keys:
  "makeRoute m p cb sk k = Some r \<Longrightarrow> routeSkipKey r = sk \<and> routeKey r = k"
  by (auto simp: makeRoute_def split: option.splits)

lemma pathLoop_keys:
  "pathLoop m cb sk par ps (st, rs) = Some (st', rs') \<Longrightarrow>
     this_router st' = this_router st
     \<and> routeKey_counter st' = routeKey_counter st + int (length ps)
     \<and> (\<exists>new. rs' = rs @ new
              \<and> map routeSkipKey new = replicate (length ps) sk
              \<and> map routeKey new = map (\<lambda>j. routeKey_counter st + int j) [0..<length ps])"
proof (induction ps arbitrary: st rs)
  case Nil
  then show ?case by simp
next
  case (Cons p ps)
  from Cons.prems obtain r where
    r: "makeRoute m (normalizePath (this_router st) par p) cb sk (routeKey_counter st) = Some r"
    by (auto split: option.splits)
  let ?st1 = "st\<lparr>routeKey_counter := routeKey_counter st + 1\<rparr>"
  obtain st2 where st2: "pathLoop m cb sk par ps (st2, rs @ [r]) = Some (st', rs')"
    and t2: "this_router st2 = this_router st" and c2: "routeKey_counter st2 = routeKey_counter st + 1"
    using Cons.prems r by (auto simp: Let_def split: if_splits)
  from Cons.IH[OF st2] obtain new where
    a: "this_router st' = this_router st2" "routeKey_counter st' = routeKey_counter st2 + int (length ps)"
    and n: "rs' = (rs @ [r]) @ new" "map routeSkipKey new = replicate (length ps) sk"
      "map routeKey new = map (\<lambda>j. routeKey_counter st2 + int j) [0..<length ps]"
    by blast
  have shift: "map (\<lambda>j. routeKey_counter st + int j) [0..<Suc (length ps)]
        = routeKey_counter st # map (\<lambda>j. routeKey_counter st + 1 + int j) [0..<length ps]"
    by (simp add: upt_rec[of 0] map_Suc_upt[symmetric] del: upt_Suc) 
  have "rs' = rs @ (r # new)" using n by simp
  moreover have "map routeSkipKey (r # new) = replicate (length (p # ps)) sk"
    using n makeRoute_keys[OF r] by simp
  moreover have "map routeKey (r # new) = map (\<lambda>j. routeKey_counter st + int j) [0..<length (p # ps)]"
    using n makeRoute_keys[OF r] c2 shift by simp
  ultimately show ?case using a t2 c2 by (intro conjI exI[of _ "r # new"]) simp_all
qed

lemma callbackLoop_keys:
  "callbackLoop m path sk par cbs st = Some st' \<Longrightarrow>
     routeKey_counter st' = routeKey_counter st + int (length cbs * length (pathsOf path))
     \<and> (\<exists>new. routes (this_router st') = routes (this_router st) @ new
              \<and> map routeSkipKey new = replicate (length cbs * length (pathsOf path)) sk
              \<and> map routeKey new = map (\<lambda>j. routeKey_counter st + int j)
                                       [0..<length cbs * length (pathsOf path)])"
proof (induction cbs arbitrary: st)
  case Nil
  then show ?case by simp
next
  case (Cons cb cbs)
  let ?n = "length (pathsOf path)"
  from Cons.prems obtain st1 rs where
    pl: "pathLoop m cb sk par (pathsOf path) (st, []) = Some (st1, rs)"
    and cl: "callbackLoop m path sk par cbs (st1\<lparr>this_router := push_routes rs (this_router st1)\<rparr>) = Some st'"
    by (auto simp: pathsOf_def split: option.splits)
  from pathLoop_keys[OF pl] have
    p: "this_router st1 = this_router st" "routeKey_counter st1 = routeKey_counter st + int ?n"
      "map routeSkipKey rs = replicate ?n sk"
      "map routeKey rs = map (\<lambda>j. routeKey_counter st + int j) [0..<?n]"
    by auto
  from Cons.IH[OF cl] obtain new where
    c: "routeKey_counter st' = routeKey_counter st1 + int (length cbs * ?n)"
    and n: "routes (this_router st') = (routes (this_router st1) @ rs) @ new"
      "map routeSkipKey new = replicate (length cbs * ?n) sk"
      "map routeKey new = map (\<lambda>j. routeKey_counter st1 + int j) [0..<length cbs * ?n]"
    by (auto simp: push_routes_def)
  have split: "map (\<lambda>j. routeKey_counter st + int j) [0..<?n + length cbs * ?n]
        = map (\<lambda>j. routeKey_counter st + int j) [0..<?n]
          @ map (\<lambda>j. routeKey_counter st + int ?n + int j) [0..<length cbs * ?n]"
  proof -
    have "map (\<lambda>j. routeKey_counter st + int j) [?n..<?n + length cbs * ?n]
          = map (\<lambda>j. routeKey_counter st + int ?n + int j) [0..<length cbs * ?n]"
      by (rule nth_equalityI) (simp_all add: algebra_simps)
    then show ?thesis by (simp add: upt_add_eq_append[of 0])
  qed
  have "routes (this_router st') = routes (this_router st) @ (rs @ new)" using n p by simp
  moreover have "map routeSkipKey (rs @ new) = replicate (length (cb # cbs) * ?n) sk"
    using n p by (simp add: replicate_add)
  moreover have "map routeKey (rs @ new)
      = map (\<lambda>j. routeKey_counter st + int j) [0..<length (cb # cbs) * ?n]"
    using n p split by simp
  ultimately show ?case using c p by (intro conjI exI[of _ "rs @ new"]) (simp_all add: algebra_simps)
qed

lemma createRoute_group:
  assumes "createRoute m path par callbacks st = Some st'"
  shows "\<exists>new. routes (this_router st') = routes (this_router st) @ new
           \<and> length new = length (flat callbacks) * length (pathsOf path)
           \<and> (\<forall>r\<in>set new. routeSkipKey r = routeKey_counter st + int (length (flat callbacks)) - 1)
           \<and> map routeKey new = map (\<lambda>j. routeKey_counter st + int j) [0..<length new]"
proof -
  let ?sk = "routeKey_counter st + int (length (flat callbacks)) - 1"
  let ?n = "length (flat callbacks) * length (pathsOf path)"
  from callbackLoop_keys[OF assms[unfolded createRoute_def]] obtain new where
    n: "routes (this_router st') = routes (this_router st) @ new"
      "map routeSkipKey new = replicate ?n ?sk"
      "map routeKey new = map (\<lambda>j. routeKey_counter st + int j) [0..<?n]"
    by blast
  from n(2) have len: "length new = ?n" by (metis length_map length_replicate)
  have "\<forall>r\<in>set new. routeSkipKey r = ?sk"
  proof
    fix r assume "r \<in> set new"
    then have "routeSkipKey r \<in> set (map routeSkipKey new)" by simp
    then show "routeSkipKey r = ?sk" unfolding n(2) by simp
  qed
  with n len show ?thesis by (intro exI[of _ new]) simp
qed

lemma createRoute_single_path:
  assumes "createRoute m (Single p) par callbacks st = Some st'" and "flat callbacks \<noteq> []"
  shows "\<exists>new. routes (this_router st') = routes (this_router st) @ new \<and> new \<noteq> []
           \<and> (\<forall>r\<in>set new. routeSkipKey r = routeKey (last new))"
proof -
  from createRoute_group[OF assms(1)] obtain new where
    n: "routes (this_router st') = routes (this_router st) @ new"
      "length new = length (flat callbacks)"
      "\<forall>r\<in>set new. routeSkipKey r = routeKey_counter st + int (length (flat callbacks)) - 1"
      "map routeKey new = map (\<lambda>j. routeKey_counter st + int j) [0..<length new]"
    by (auto simp: pathsOf_def)
  from n(2) assms(2) have ne: "new \<noteq> []" by auto
  then have "routeKey (last new) = last (map routeKey new)" by (simp add: last_map)
  also have "\<dots> = routeKey_counter st + int (length new - 1)"
    unfolding n(4) using ne by (simp add: last_map last_upt)
  also have "\<dots> = routeKey_counter st + int (length (flat callbacks)) - 1"
  proof -
    from ne obtain k where "length new = Suc k" by (cases new) auto
    then have "int (length new - 1) = int (length new) - 1" by simp
    then show ?thesis using n(2) by simp
  qed
  finally show ?thesis using n ne by (intro exI[of _ new]) simp
qed

text \<open>
  Claim C3, evaluated where it fails: a registration of two callbacks for two paths on a
  fresh application creates four entries with routeKeys 0 to 3; all of them get the
  routeSkipKey 1, which is the routeKey of the second entry, not of the last one.
\<close>

theorem C3_two_paths_two_callbacks:
  "(case createRoute ''GET'' (Multi [PStr ''/a'', PStr ''/b'']) None
           [One (Handler hRoute), One (Handler hDone)] newApp of
      None \<Rightarrow> []
    | Some st \<Rightarrow> map (\<lambda>r. (pathToString (r_path r), routeKey r, routeSkipKey r)) (routes (this_router st)))
   = [(''/a'', 0, 1), (''/b'', 1, 1), (''/a'', 2, 1), (''/b'', 3, 1)]"
  by code_simp

text \<open>
  On that table, a request for \<^verbatim>\<open>GET /a\<close> whose first callback calls its continuation with
  \<^verbatim>\<open>'route'\<close> still reaches the second callback of the same registration.
\<close>

lemma C3_group_not_skipped:
  "(case createRoute ''GET'' (Multi [PStr ''/a'', PStr ''/b'']) None
           [One (Handler hRoute), One (Handler hDone)] newApp of
      None \<Rightarrow> []
    | Some st \<Rightarrow> trace (fst (routeRequest (this_router st) None (newRequest ''GET'' ''/a'') 0 None)))
   = [Invoke 0, Invoke 2]"
  by code_simp

section \<open>The optimizer\<close>

subsection \<open>The flattened chain\<close>





subsection \<open>Positions in a filtered list\<close>





subsection \<open>One step of either dispatch\<close>















subsection \<open>The walk simulates the chain\<close>






subsection \<open>Native and generic dispatch of a literal route\<close>




end
